theory Spec2Isabelle
  imports Main "HOL-Library.Word" "HOL-Library.Signed_Division"
begin

section \<open>Package state: commands and the key-value store\<close>

text \<open>
  \<^verbatim>\<open>type Operation uint8\<close> with the constants \<^verbatim>\<open>NONE, PUT, GET, DELETE, RLOCK, RMW\<close>
  numbered by \<^verbatim>\<open>iota\<close>; \<^verbatim>\<open>type Value int64\<close>, \<^verbatim>\<open>const NIL Value = 0\<close>,
  \<^verbatim>\<open>type Key int64\<close>.
\<close>

type_synonym Operation = "8 word"
type_synonym Value = "64 word"
type_synonym Key = "64 word"

definition NONE :: Operation where "NONE = 0"
definition PUT :: Operation where "PUT = 1"
definition GET :: Operation where "GET = 2"
definition DELETE :: Operation where "DELETE = 3"
definition RLOCK :: Operation where "RLOCK = 4"
definition RMW :: Operation where "RMW = 5"

definition NIL :: Value where "NIL = 0"

record Command =
  Op :: Operation
  K :: Key
  V :: Value

text \<open>
  \<^verbatim>\<open>type State struct { mutex *sync.Mutex; Store map[Key]Value }\<close>. No function of the
  package locks or unlocks the mutex (the two lines of \<^verbatim>\<open>Execute\<close> that did are
  commented out), so the state that matters is the map.
\<close>

record State =
  Store :: "Key \<rightharpoonup> Value"

definition InitState :: State where
  "InitState = \<lparr>Store = Map.empty\<rparr>"

definition Conflict :: "Command \<Rightarrow> Command \<Rightarrow> bool" where
  "Conflict gamma delta =
     (if K gamma = K delta then
        (if Op gamma = PUT \<or> Op gamma = RMW \<or> Op delta = PUT \<or> Op delta = RMW then True
         else False)
      else False)"

definition IsRead :: "Command \<Rightarrow> bool" where
  "IsRead command = (Op command = GET)"

text \<open>
  \<^verbatim>\<open>func (c *Command) Execute(st *State) Value\<close>: the returned value together with the
  state after the call. \<^verbatim>\<open>val += 1\<close> is \<^verbatim>\<open>int64\<close> addition, which wraps.
\<close>

definition Execute :: "Command \<Rightarrow> State \<Rightarrow> Value \<times> State" where
  "Execute c st =
     (if Op c = PUT then (V c, st\<lparr>Store := (Store st)(K c \<mapsto> V c)\<rparr>)
      else if Op c = GET then
        (case Store st (K c) of Some val \<Rightarrow> (val, st) | None \<Rightarrow> (NIL, st))
      else if Op c = RMW then
        (case Store st (K c) of
           Some val \<Rightarrow> (val + 1, st\<lparr>Store := (Store st)(K c \<mapsto> val + 1)\<rparr>)
         | None \<Rightarrow> (0 + 1, st\<lparr>Store := (Store st)(K c \<mapsto> 0 + 1)\<rparr>))
      else (NIL, st))"

text \<open>
  A caller that executes a list of commands one after the other on the same state, as a
  replica applying its log does: each command paired with the value it returned.
\<close>

fun execute_seq :: "Command list \<Rightarrow> State \<Rightarrow> (Command \<times> Value) list \<times> State" where
  "execute_seq [] st = ([], st)"
| "execute_seq (c # cs) st =
     (let (v, st') = Execute c st; (rs, st'') = execute_seq cs st' in ((c, v) # rs, st''))"

definition results_on :: "Key \<Rightarrow> (Command \<times> Value) list \<Rightarrow> Value list" where
  "results_on k rs = map snd (filter (\<lambda>(c, v). K c = k) rs)"

definition stored :: "State \<Rightarrow> Key \<Rightarrow> Value" where
  "stored st k = (case Store st k of None \<Rightarrow> 0 | Some val \<Rightarrow> val)"

section \<open>Package main: configuration\<close>

text \<open>
  The command-line flags the modelled functions read. A Go \<^verbatim>\<open>int\<close> is 64 bits wide on
  the platforms the harness runs on; \<^verbatim>\<open>outstandingReqs\<close> is an \<^verbatim>\<open>int64\<close>.
\<close>

record flags =
  conflicts :: "64 word"
  startRange :: "64 word"
  outstandingReqs :: "64 word"
  poissonAvg :: "64 word"
  blindWrites :: bool
  rampDown :: "64 word"
  rampUp :: "64 word"
  timeout :: "64 word"

text \<open>
  A \<^verbatim>\<open>time.Time\<close> is an instant, here the number of nanoseconds since the zero
  \<^verbatim>\<open>Time\<close> (so the zero value is 0); a \<^verbatim>\<open>time.Duration\<close> is an \<^verbatim>\<open>int64\<close> count of
  nanoseconds, and \<^verbatim>\<open>t.Sub(u)\<close> saturates at its bounds.
\<close>

type_synonym Time = int
type_synonym Duration = "64 word"

definition Sub :: "Time \<Rightarrow> Time \<Rightarrow> Duration" where
  "Sub t u = word_of_int (max (- (2 ^ 63)) (min (2 ^ 63 - 1) (t - u)))"

section \<open>Key distribution of the issuer\<close>

text \<open>
  The cold key of \<^verbatim>\<open>simulatedClientWriter\<close>:
  \<^verbatim>\<open>state.Key(int32(*startRange) + 43 + id)\<close> with \<^verbatim>\<open>id\<close> an \<^verbatim>\<open>int32\<close>. The conversion
  to \<^verbatim>\<open>int32\<close> keeps the low 32 bits, the sum is 32-bit and wraps, and the conversion to
  \<^verbatim>\<open>Key\<close> extends the sign.
\<close>

definition cold_key :: "64 word \<Rightarrow> 32 word \<Rightarrow> Key" where
  "cold_key sr i = scast ((ucast sr :: 32 word) + 43 + i)"

text \<open>
  The key of one request: \<open>r\<close> is the draw \<^verbatim>\<open>conflictRand.Intn(100)\<close> and \<open>z\<close> the
  draw \<^verbatim>\<open>state.Key(zipf.NextNumber())\<close> (the Zipfian generator is a package of its own);
  each is read only on the branch that makes the draw.
\<close>

definition pick_key :: "flags \<Rightarrow> 64 word \<Rightarrow> Key \<Rightarrow> 32 word \<Rightarrow> Key" where
  "pick_key fl r z i =
     (if 0 \<le>s conflicts fl then
        (if r <s conflicts fl then 42 else cold_key (startRange fl) i)
      else z)"

section \<open>The admission semaphore\<close>

text \<open>
  \<^verbatim>\<open>semaphore.Weighted\<close> of \<^verbatim>\<open>golang.org/x/sync/semaphore\<close>, as the harness uses it: one
  issuer takes single units, one receiver gives them back. \<^verbatim>\<open>TryAcquire(1)\<close> succeeds
  exactly when a unit is free; \<^verbatim>\<open>Acquire(ctx, 1)\<close> with the background context returns
  once a unit is free and keeps its caller suspended until then (\<open>None\<close>);
  \<^verbatim>\<open>Release(1)\<close> panics when it gives back more than is held (\<open>None\<close>).
\<close>

record Weighted =
  sem_size :: int
  sem_cur :: int

definition NewWeighted :: "int \<Rightarrow> Weighted" where
  "NewWeighted n = \<lparr>sem_size = n, sem_cur = 0\<rparr>"

definition TryAcquire :: "Weighted \<Rightarrow> bool \<times> Weighted" where
  "TryAcquire s =
     (if 1 \<le> sem_size s - sem_cur s then (True, s\<lparr>sem_cur := sem_cur s + 1\<rparr>) else (False, s))"

definition Acquire :: "Weighted \<Rightarrow> Weighted option" where
  "Acquire s =
     (if 1 \<le> sem_size s - sem_cur s then Some (s\<lparr>sem_cur := sem_cur s + 1\<rparr>) else None)"

definition Release :: "Weighted \<Rightarrow> Weighted option" where
  "Release s = (if sem_cur s - 1 < 0 then None else Some (s\<lparr>sem_cur := sem_cur s - 1\<rparr>))"

text \<open>
  The admission of a request, the same code in both issuers. With \<^verbatim>\<open>*poissonAvg == -1\<close>
  the blocking \<^verbatim>\<open>Acquire\<close>; with any other value one round of the Poisson loop:
  \<^verbatim>\<open>TryAcquire\<close>, then either a sleep of the drawn inter-arrival time \<open>d\<close>
  (\<^verbatim>\<open>poissonGenerator.NextArrival()\<close>, a package of its own) or a change of
  \<^verbatim>\<open>queuedReqs\<close>, the loop being left when the unit was obtained. The arguments are the
  semaphore, \<^verbatim>\<open>queuedReqs\<close> and the arguments of \<^verbatim>\<open>time.Sleep\<close> so far; the result
  says whether the request is admitted, \<open>None\<close> that the issuer is suspended.
\<close>

definition admission ::
    "flags \<Rightarrow> Duration \<Rightarrow> Weighted \<Rightarrow> int \<Rightarrow> Duration list \<Rightarrow>
     (bool \<times> Weighted \<times> int \<times> Duration list) option" where
  "admission fl d s q sl =
     (if poissonAvg fl = - 1 then
        (case Acquire s of
           None \<Rightarrow> None
         | Some s' \<Rightarrow> Some (True, s', q, sl))
      else
        (case TryAcquire s of
           (True, s') \<Rightarrow>
             (if q = 0 then Some (True, s', q, sl @ [d]) else Some (True, s', q - 1, sl))
         | (False, s') \<Rightarrow> Some (False, s', q + 1, sl @ [d])))"

section \<open>The raw-wire client\<close>

text \<open>
  Modelled from the spec: the frames of package \<^verbatim>\<open>genericsmrproto\<close>, which is not among
  the sources. A request carries the request id, the command and a timestamp; a reply
  carries a status byte (0 for a failure) and the echoed request id.
\<close>

record ProposeReplyTS =
  OK :: "8 word"
  CommandId :: "32 word"

record Propose =
  CommandId :: "32 word"
  Command :: Command
  Timestamp :: "64 word"

text \<open>
  \<^verbatim>\<open>type response struct\<close>. The round-trip time is kept as the duration
  \<^verbatim>\<open>after.Sub(before)\<close>; the source stores the same duration as a \<^verbatim>\<open>float64\<close> number of
  milliseconds. The commit latency is the constant 0.
\<close>

record response =
  receivedAt :: Time
  rtt :: Duration
  commitLatency :: Duration
  isRead :: bool
  replicaID :: int

text \<open>
  \<^verbatim>\<open>type outstandingRequestInfo struct\<close>. The embedded mutex guards the two maps; each
  locked section of the source is one function below.
\<close>

record outstandingRequestInfo =
  sema :: Weighted
  startTimes :: "32 word \<rightharpoonup> Time"
  isRead :: "32 word \<rightharpoonup> bool"

text \<open>
  The issuer's locked section:
  \<^verbatim>\<open>if args.Command.Op == state.GET { orInfo.isRead[id] = true }; orInfo.startTimes[id] = before\<close>.
\<close>

definition record_issue ::
    "32 word \<Rightarrow> Operation \<Rightarrow> Time \<Rightarrow> outstandingRequestInfo \<Rightarrow> outstandingRequestInfo" where
  "record_issue i opn b oi =
     (let oi' = (if opn = GET then oi\<lparr>isRead := (isRead oi)(i \<mapsto> True)\<rparr> else oi)
      in oi'\<lparr>startTimes := (startTimes oi')(i \<mapsto> b)\<rparr>)"

text \<open>
  The receiver's locked section: the two lookups (a missing key reads as the zero value)
  and \<^verbatim>\<open>delete(orInfo.startTimes, reply.CommandId)\<close>.
\<close>

definition match_reply ::
    "32 word \<Rightarrow> outstandingRequestInfo \<Rightarrow> Time \<times> bool \<times> outstandingRequestInfo" where
  "match_reply i oi =
     (case startTimes oi i of None \<Rightarrow> 0 | Some t \<Rightarrow> t,
      case isRead oi i of None \<Rightarrow> False | Some b \<Rightarrow> b,
      oi\<lparr>startTimes := (startTimes oi)(i := None)\<rparr>)"

text \<open>
  One simulated client: the issuer \<^verbatim>\<open>simulatedClientWriter\<close>, the receiver
  \<^verbatim>\<open>simulatedClientReader\<close>, the \<^verbatim>\<open>outstandingRequestInfo\<close> they share, and the
  connection between them and the replica. Each goroutine is at one of the places of its
  loop body; the two run interleaved, a step being a stretch of code that touches shared
  state at most once (a semaphore call, a locked section, a write to or a read from the
  connection).
\<close>

datatype wloc = W_pick | W_gate | W_send | W_record

datatype rloc = R_read | R_release | R_match | R_failed | R_stopped

record client =
  orInfo :: outstandingRequestInfo
  leader :: int
  wloc :: wloc
  id_w :: "32 word"
  args :: Propose
  queuedReqs :: int
  before_w :: Time
  slept :: "Duration list"
  pending :: "Propose list"
  inbound :: "ProposeReplyTS list"
  rloc :: rloc
  reply :: ProposeReplyTS
  after_r :: Time
  readings :: "response list"
  panicked :: bool

text \<open>
  The state in which \<^verbatim>\<open>main\<close> starts the two goroutines of a client: a semaphore of
  \<^verbatim>\<open>*outstandingReqs\<close> units, empty maps, \<^verbatim>\<open>args\<close> a PUT of key 0.
\<close>

definition start :: "flags \<Rightarrow> int \<Rightarrow> client" where
  "start fl ld =
     \<lparr>orInfo = \<lparr>sema = NewWeighted (sint (outstandingReqs fl)),
                startTimes = Map.empty, isRead = Map.empty\<rparr>,
      leader = ld, wloc = W_pick, id_w = 0,
      args = \<lparr>CommandId = 0, Command = \<lparr>Op = PUT, K = 0, V = 0\<rparr>, Timestamp = 0\<rparr>,
      queuedReqs = 0, before_w = 0, slept = [], pending = [], inbound = [],
      rloc = R_read, reply = \<lparr>OK = 0, CommandId = 0\<rparr>, after_r = 0, readings = [],
      panicked = False\<rparr>"

text \<open>
  Issuer, top of the loop body: the id, the key and the operation of the next request.
  \<open>r\<close> and \<open>z\<close> are the draws of \<^const>\<open>pick_key\<close>; \<open>w\<close> is the outcome of the test
  that selects a write (\<^verbatim>\<open>*percentWrites > opRand.Float64()\<close>, or \<^verbatim>\<open>leader == 0\<close> in the
  variant that assigns writers and readers by replica). With \<^verbatim>\<open>*blindWrites\<close> set a write
  leaves the operation of the previous request in place.
\<close>

definition writer_pick :: "flags \<Rightarrow> 64 word \<Rightarrow> bool \<Rightarrow> Key \<Rightarrow> client \<Rightarrow> client option" where
  "writer_pick fl r w z c =
     (if wloc c = W_pick then
        Some (c\<lparr>args := (args c)\<lparr>CommandId := id_w c,
                    Command := (Command (args c))
                      \<lparr>K := pick_key fl r z (id_w c),
                       Op := (if w then (if \<not> blindWrites fl then PUT
                                        else Op (Command (args c)))
                              else GET)\<rparr>\<rparr>,
               wloc := W_gate\<rparr>)
      else None)"

text \<open>
  Issuer, admission; it stays at this place while a round of the Poisson loop finds no
  unit free. \<^const>\<open>slept\<close> lists the arguments of \<^verbatim>\<open>time.Sleep\<close> so far.
\<close>

definition writer_gate :: "flags \<Rightarrow> Duration \<Rightarrow> client \<Rightarrow> client option" where
  "writer_gate fl d c =
     (if wloc c = W_gate then
        (case admission fl d (sema (orInfo c)) (queuedReqs c) (slept c) of
           None \<Rightarrow> None
         | Some (admitted, s, q, sl) \<Rightarrow>
             Some (c\<lparr>orInfo := (orInfo c)\<lparr>sema := s\<rparr>, queuedReqs := q, slept := sl,
                    wloc := (if admitted then W_send else W_gate)\<rparr>))
      else None)"

text \<open>
  Issuer: \<^verbatim>\<open>before := time.Now()\<close>, then the frame is written and flushed to the
  connection.
\<close>

definition writer_send :: "Time \<Rightarrow> client \<Rightarrow> client option" where
  "writer_send now c =
     (if wloc c = W_send then
        Some (c\<lparr>before_w := now, pending := pending c @ [args c], wloc := W_record\<rparr>)
      else None)"

text \<open>Issuer: the locked section, after the flush; then \<^verbatim>\<open>id++\<close>.\<close>

definition writer_record :: "client \<Rightarrow> client option" where
  "writer_record c =
     (if wloc c = W_record then
        Some (c\<lparr>orInfo := record_issue (id_w c) (Op (Command (args c))) (before_w c) (orInfo c),
               id_w := id_w c + 1, wloc := W_pick\<rparr>)
      else None)"

text \<open>
  The replica answers the \<open>n\<close>-th of the requests it holds, in any order and after any
  delay, with a status byte and the id of that request.
\<close>

definition replica_answer :: "nat \<Rightarrow> 8 word \<Rightarrow> client \<Rightarrow> client option" where
  "replica_answer n ok c =
     (if n < length (pending c) then
        Some (c\<lparr>inbound := inbound c @ [\<lparr>OK = ok, CommandId = CommandId (pending c ! n)\<rparr>],
               pending := take n (pending c) @ drop (Suc n) (pending c)\<rparr>)
      else None)"

text \<open>
  Receiver: \<^verbatim>\<open>reply.Unmarshal(reader)\<close> returns the next reply; a failure status ends the
  loop (the place \<^const>\<open>R_failed\<close>: the request of this reply is never matched), otherwise
  \<^verbatim>\<open>after := time.Now()\<close>.
\<close>

definition reader_read :: "Time \<Rightarrow> client \<Rightarrow> client option" where
  "reader_read now c =
     (if rloc c = R_read then
        (case inbound c of
           [] \<Rightarrow> None
         | rp # rest \<Rightarrow>
             Some (if OK rp = 0 then c\<lparr>reply := rp, inbound := rest, rloc := R_failed\<rparr>
                   else c\<lparr>reply := rp, inbound := rest, after_r := now, rloc := R_release\<rparr>))
      else None)"

text \<open>
  Receiver: \<^verbatim>\<open>Unmarshal\<close> returns an error, which ends the loop as well (the place
  \<^const>\<open>R_stopped\<close>).
\<close>

definition reader_error :: "client \<Rightarrow> client option" where
  "reader_error c = (if rloc c = R_read then Some (c\<lparr>rloc := R_stopped\<rparr>) else None)"

text \<open>Receiver: \<^verbatim>\<open>orInfo.sema.Release(1)\<close>.\<close>

definition reader_release :: "client \<Rightarrow> client option" where
  "reader_release c =
     (if rloc c = R_release then
        (case Release (sema (orInfo c)) of
           None \<Rightarrow> Some (c\<lparr>panicked := True\<rparr>)
         | Some s \<Rightarrow> Some (c\<lparr>orInfo := (orInfo c)\<lparr>sema := s\<rparr>, rloc := R_match\<rparr>))
      else None)"

text \<open>Receiver: the locked section, and the record sent to the aggregator.\<close>

definition reader_match :: "client \<Rightarrow> client option" where
  "reader_match c =
     (if rloc c = R_match then
        (case match_reply (ProposeReplyTS.CommandId (reply c)) (orInfo c) of
           (b, rd, oi) \<Rightarrow>
             Some (c\<lparr>orInfo := oi,
                    readings := readings c @
                      [\<lparr>receivedAt = after_r c, rtt = Sub (after_r c) b, commitLatency = 0,
                        isRead = rd, replicaID = leader c\<rparr>],
                    rloc := R_read\<rparr>))
      else None)"

datatype event =
    Pick "64 word" bool Key
  | Gate Duration
  | Flush Time
  | Record
  | Answer nat "8 word"
  | Read Time
  | ReadError
  | Release1
  | Match

text \<open>One step of a client; \<open>None\<close> when the event cannot happen in this state.\<close>

definition step :: "flags \<Rightarrow> event \<Rightarrow> client \<Rightarrow> client option" where
  "step fl e c =
     (if panicked c then None
      else case e of
          Pick r w z \<Rightarrow> writer_pick fl r w z c
        | Gate d \<Rightarrow> writer_gate fl d c
        | Flush now \<Rightarrow> writer_send now c
        | Record \<Rightarrow> writer_record c
        | Answer n ok \<Rightarrow> replica_answer n ok c
        | Read now \<Rightarrow> reader_read now c
        | ReadError \<Rightarrow> reader_error c
        | Release1 \<Rightarrow> reader_release c
        | Match \<Rightarrow> reader_match c)"

fun run :: "flags \<Rightarrow> event list \<Rightarrow> client \<Rightarrow> client option" where
  "run fl [] c = Some c"
| "run fl (e # es) c = (case step fl e c of None \<Rightarrow> None | Some c' \<Rightarrow> run fl es c')"

text \<open>
  The requests that are flushed to the connection and whose reply the receiver has not
  read yet, by their ids: those the replica holds and those whose reply is on its way.
\<close>

definition outstanding_ids :: "client \<Rightarrow> 32 word list" where
  "outstanding_ids c =
     map Propose.CommandId (pending c) @ map ProposeReplyTS.CommandId (inbound c)"

text \<open>
  The requests whose unit of the semaphore has not been released: the former, and the
  request whose reply the receiver has read and not released (it is about to, or it has
  ended on the failure status of that reply).
\<close>

definition unreleased_ids :: "client \<Rightarrow> 32 word list" where
  "unreleased_ids c =
     outstanding_ids c @
     (if rloc c = R_release \<or> rloc c = R_failed then [ProposeReplyTS.CommandId (reply c)]
      else [])"

text \<open>
  The requests that are issued and whose completion is not matched: flushed, and the
  receiver has not run its locked section for their reply. Besides the former these are
  the request whose reply the receiver has read and not yet matched, the unit being
  released or not.
\<close>

definition unmatched_ids :: "client \<Rightarrow> 32 word list" where
  "unmatched_ids c =
     outstanding_ids c @
     (if rloc c = R_release \<or> rloc c = R_match \<or> rloc c = R_failed
      then [ProposeReplyTS.CommandId (reply c)] else [])"

text \<open>
  The units of the semaphore that are taken: one for each request whose unit has not been
  released, and one while the issuer has acquired and not yet flushed.
\<close>

definition held :: "client \<Rightarrow> int" where
  "held c = int (length (unreleased_ids c)) + (if wloc c = W_send then 1 else 0)"

definition sem_inv :: "flags \<Rightarrow> client \<Rightarrow> bool" where
  "sem_inv fl c \<longleftrightarrow>
     \<not> panicked c \<and> sem_size (sema (orInfo c)) = sint (outstandingReqs fl) \<and>
     sem_cur (sema (orInfo c)) = held c \<and> sem_cur (sema (orInfo c)) \<le> sint (outstandingReqs fl)"

section \<open>The client over the Gryff library\<close>

text \<open>
  \<^verbatim>\<open>type OpType int\<close> with \<^verbatim>\<open>WRITE, READ, RMW\<close> numbered by \<^verbatim>\<open>iota\<close>; the issuer
  assigns the first two only.
\<close>

datatype OpType = WRITE | READ | RMW_OpType

text \<open>
  \<^verbatim>\<open>simulatedGryffClientWriter\<close> is one goroutine: it issues each request with a blocking
  call of the client library (\<^verbatim>\<open>client.Read\<close> or \<^verbatim>\<open>client.Write\<close>, a package of its own,
  of which the model keeps when the call starts and when and how it returns), records
  the issue time after the call has returned, releases the unit and sends the record.
  The places of its loop body:
\<close>

datatype gloc = G_pick | G_gate | G_call | G_in_call | G_record | G_release | G_emit

record gryff_client =
  g_orInfo :: outstandingRequestInfo
  g_leader :: int
  g_loc :: gloc
  g_id :: "32 word"
  opType :: OpType
  k_g :: "64 word"
  g_queuedReqs :: int
  g_slept :: "Duration list"
  g_before :: Time
  g_after :: Time
  g_success :: bool
  g_readings :: "response list"
  g_panicked :: bool

definition gryff_start :: "flags \<Rightarrow> int \<Rightarrow> gryff_client" where
  "gryff_start fl ld =
     \<lparr>g_orInfo = \<lparr>sema = NewWeighted (sint (outstandingReqs fl)),
                  startTimes = Map.empty, isRead = Map.empty\<rparr>,
      g_leader = ld, g_loc = G_pick, g_id = 0, opType = WRITE, k_g = 0,
      g_queuedReqs = 0, g_slept = [], g_before = 0, g_after = 0, g_success = False,
      g_readings = [], g_panicked = False\<rparr>"

text \<open>
  The key and the kind of the next request; the cold key is
  \<^verbatim>\<open>int64(*startRange) + 43 + int64(id)\<close>, a 64-bit sum.
\<close>

definition gryff_pick ::
    "flags \<Rightarrow> 64 word \<Rightarrow> bool \<Rightarrow> 64 word \<Rightarrow> gryff_client \<Rightarrow> gryff_client option" where
  "gryff_pick fl r w z g =
     (if g_loc g = G_pick then
        Some (g\<lparr>k_g := (if 0 \<le>s conflicts fl then
                          (if r <s conflicts fl then 42
                           else startRange fl + 43 + scast (g_id g))
                        else z),
               opType := (if w then (if \<not> blindWrites fl then WRITE else opType g)
                          else READ),
               g_loc := G_gate\<rparr>)
      else None)"

text \<open>The admission.\<close>

definition gryff_gate :: "flags \<Rightarrow> Duration \<Rightarrow> gryff_client \<Rightarrow> gryff_client option" where
  "gryff_gate fl d g =
     (if g_loc g = G_gate then
        (case admission fl d (sema (g_orInfo g)) (g_queuedReqs g) (g_slept g) of
           None \<Rightarrow> None
         | Some (admitted, s, q, sl) \<Rightarrow>
             Some (g\<lparr>g_orInfo := (g_orInfo g)\<lparr>sema := s\<rparr>, g_queuedReqs := q, g_slept := sl,
                    g_loc := (if admitted then G_call else G_gate)\<rparr>))
      else None)"

text \<open>\<^verbatim>\<open>before := time.Now()\<close>, \<^verbatim>\<open>var after time.Time\<close>, and the call starts.\<close>

definition gryff_call :: "Time \<Rightarrow> gryff_client \<Rightarrow> gryff_client option" where
  "gryff_call now g =
     (if g_loc g = G_call then Some (g\<lparr>g_before := now, g_after := 0, g_loc := G_in_call\<rparr>)
      else None)"

text \<open>The call returns; \<^verbatim>\<open>after = time.Now()\<close> when it succeeded.\<close>

definition gryff_return :: "Time \<Rightarrow> bool \<Rightarrow> gryff_client \<Rightarrow> gryff_client option" where
  "gryff_return now ok g =
     (if g_loc g = G_in_call then
        Some (g\<lparr>g_success := ok, g_after := (if ok then now else g_after g),
               g_loc := G_record\<rparr>)
      else None)"

text \<open>The locked section: \<^verbatim>\<open>orInfo.startTimes[id] = before\<close>.\<close>

definition gryff_record :: "gryff_client \<Rightarrow> gryff_client option" where
  "gryff_record g =
     (if g_loc g = G_record then
        Some (g\<lparr>g_orInfo := (g_orInfo g)
                  \<lparr>startTimes := (startTimes (g_orInfo g))(g_id g \<mapsto> g_before g)\<rparr>,
               g_loc := G_release\<rparr>)
      else None)"

definition gryff_release :: "gryff_client \<Rightarrow> gryff_client option" where
  "gryff_release g =
     (if g_loc g = G_release then
        (case Release (sema (g_orInfo g)) of
           None \<Rightarrow> Some (g\<lparr>g_panicked := True\<rparr>)
         | Some s \<Rightarrow> Some (g\<lparr>g_orInfo := (g_orInfo g)\<lparr>sema := s\<rparr>, g_loc := G_emit\<rparr>))
      else None)"

text \<open>The record sent to the aggregator, then \<^verbatim>\<open>id++\<close>.\<close>

definition gryff_emit :: "gryff_client \<Rightarrow> gryff_client option" where
  "gryff_emit g =
     (if g_loc g = G_emit then
        Some (g\<lparr>g_readings := g_readings g @
                  [\<lparr>receivedAt = g_after g, rtt = Sub (g_after g) (g_before g),
                    commitLatency = 0, isRead = (opType g = READ), replicaID = g_leader g\<rparr>],
               g_id := g_id g + 1, g_loc := G_pick\<rparr>)
      else None)"

datatype gryff_event =
    GPick "64 word" bool "64 word"
  | GGate Duration
  | GCall Time
  | GReturn Time bool
  | GRecord
  | GRelease
  | GEmit

definition gryff_step :: "flags \<Rightarrow> gryff_event \<Rightarrow> gryff_client \<Rightarrow> gryff_client option" where
  "gryff_step fl e g =
     (if g_panicked g then None
      else case e of
          GPick r w z \<Rightarrow> gryff_pick fl r w z g
        | GGate d \<Rightarrow> gryff_gate fl d g
        | GCall now \<Rightarrow> gryff_call now g
        | GReturn now ok \<Rightarrow> gryff_return now ok g
        | GRecord \<Rightarrow> gryff_record g
        | GRelease \<Rightarrow> gryff_release g
        | GEmit \<Rightarrow> gryff_emit g)"

fun gryff_run :: "flags \<Rightarrow> gryff_event list \<Rightarrow> gryff_client \<Rightarrow> gryff_client option" where
  "gryff_run fl [] g = Some g"
| "gryff_run fl (e # es) g =
     (case gryff_step fl e g of None \<Rightarrow> None | Some g' \<Rightarrow> gryff_run fl es g')"

text \<open>The requests of this client that are outstanding: the call that has not returned.\<close>

definition gryff_outstanding :: "gryff_client \<Rightarrow> nat" where
  "gryff_outstanding g = (if g_loc g = G_in_call then 1 else 0)"

definition gryff_inv :: "flags \<Rightarrow> gryff_client \<Rightarrow> bool" where
  "gryff_inv fl g \<longleftrightarrow>
     \<not> g_panicked g \<and> sem_size (sema (g_orInfo g)) = sint (outstandingReqs fl) \<and>
     sem_cur (sema (g_orInfo g)) =
       (if g_loc g \<in> {G_call, G_in_call, G_record, G_release} then 1 else 0)"

text \<open>The default values of the flags.\<close>

definition default_flags :: flags where
  "default_flags =
     \<lparr>conflicts = 0, startRange = 0, outstandingReqs = 1, poissonAvg = - 1,
      blindWrites = False, rampDown = 15, rampUp = 15, timeout = 180\<rparr>"

section \<open>The aggregator in multi-file mode\<close>

text \<open>
  \<^verbatim>\<open>int(currentRuntime.Seconds())\<close>: the whole seconds of a duration, the fraction cut off
  (towards zero). \<^verbatim>\<open>Seconds\<close> returns a \<^verbatim>\<open>float64\<close>, which holds the seconds and the
  nanoseconds of any duration shorter than \<open>2^24\<close> seconds (194 days) precisely enough
  for the conversion to give this number; the properties below are stated for such
  durations.
\<close>

definition seconds_of :: "Duration \<Rightarrow> 64 word" where
  "seconds_of d = word_of_int (sint d sdiv 1000000000)"

text \<open>
  The test that guards the trace lines and the summary line:
  \<^verbatim>\<open>*rampUp < int(currentRuntime.Seconds()) && int(currentRuntime.Seconds()) < *timeout-*rampDown\<close>.
\<close>

definition in_window :: "flags \<Rightarrow> Duration \<Rightarrow> bool" where
  "in_window fl currentRuntime \<longleftrightarrow>
     rampUp fl <s seconds_of currentRuntime \<and>
     seconds_of currentRuntime <s timeout fl - rampDown fl"

datatype error = IndexOutOfRange

datatype out_file = latFileRead nat | latFileWrite nat

definition trace_file :: "response \<Rightarrow> out_file" where
  "trace_file resp =
     (if response.isRead resp then latFileRead (nat (replicaID resp))
      else latFileWrite (nat (replicaID resp)))"

text \<open>
  The inner loop of a tick of \<^verbatim>\<open>printerMultipeFile\<close> over the records it takes from the
  channel: the lines written so far, each with the file it goes to, and \<^verbatim>\<open>endTime\<close>.
  The two slices of files have \<^verbatim>\<open>numLeader\<close> entries; indexing outside them panics.
\<close>

fun trace_loop ::
    "flags \<Rightarrow> nat \<Rightarrow> Duration \<Rightarrow> response list \<Rightarrow> (out_file \<times> response) list \<times> Time \<Rightarrow>
     error + (out_file \<times> response) list \<times> Time" where
  "trace_loop fl numLeader currentRuntime [] acc = Inr acc"
| "trace_loop fl numLeader currentRuntime (resp # rest) (lines, endTime) =
     (if in_window fl currentRuntime then
        (if 0 \<le> replicaID resp \<and> replicaID resp < int numLeader then
           trace_loop fl numLeader currentRuntime rest
             (lines @ [(trace_file resp, resp)], receivedAt resp)
         else Inl IndexOutOfRange)
      else trace_loop fl numLeader currentRuntime rest (lines, endTime))"

text \<open>
  One tick: \<open>chan\<close> is the content of the channel when \<^verbatim>\<open>len(readings)\<close> is read,
  \<open>now\<close> the time then and \<open>currentRuntime\<close> the time since the start of the
  experiment. The summary line is kept as the end time, the count and the total of
  outstanding requests; the averages and the throughput printed with them are
  floating-point quotients of the same records.
\<close>

record tick =
  traces :: "(out_file \<times> response) list"
  summary :: "(Time \<times> nat \<times> nat) option"
  remaining :: "response list"

definition printer_tick ::
    "flags \<Rightarrow> nat \<Rightarrow> Time \<Rightarrow> Duration \<Rightarrow> nat \<Rightarrow> response list \<Rightarrow> error + tick" where
  "printer_tick fl numLeader now currentRuntime totalOrs chan =
     (let count = length chan in
      case trace_loop fl numLeader currentRuntime (take count chan) ([], now) of
        Inl e \<Rightarrow> Inl e
      | Inr (lines, endTime) \<Rightarrow>
          Inr \<lparr>traces = lines,
               summary = (if in_window fl currentRuntime then Some (endTime, count, totalOrs)
                          else None),
               remaining = drop count chan\<rparr>)"

section \<open>Two callers of Execute on one State\<close>

text \<open>
  \<^const>\<open>Execute\<close> takes no lock, so between the two accesses an RMW makes to the map, the
  read \<^verbatim>\<open>val, present := st.Store[c.K]\<close> and the write \<^verbatim>\<open>st.Store[c.K] = val\<close>, another
  caller can run. A caller is before the read, between the two (holding what it read), or
  done with the value it returns.
\<close>

datatype rmw_loc = T_start | T_loaded "Value option" | T_done Value

definition rmw_step :: "Command \<Rightarrow> rmw_loc \<Rightarrow> State \<Rightarrow> rmw_loc \<times> State" where
  "rmw_step c l st =
     (case l of
        T_start \<Rightarrow> (T_loaded (Store st (K c)), st)
      | T_loaded (Some val) \<Rightarrow> (T_done (val + 1), st\<lparr>Store := (Store st)(K c \<mapsto> val + 1)\<rparr>)
      | T_loaded None \<Rightarrow> (T_done (0 + 1), st\<lparr>Store := (Store st)(K c \<mapsto> 0 + 1)\<rparr>)
      | T_done v \<Rightarrow> (T_done v, st))"

text \<open>
  A schedule says which caller moves next: \<open>False\<close> the one executing \<open>a\<close>, \<open>True\<close>
  the one executing \<open>b\<close>.
\<close>

fun interleave ::
    "bool list \<Rightarrow> Command \<Rightarrow> Command \<Rightarrow> rmw_loc \<times> rmw_loc \<times> State \<Rightarrow> rmw_loc \<times> rmw_loc \<times> State" where
  "interleave [] a b s = s"
| "interleave (x # xs) a b (la, lb, st) =
     (if x then (case rmw_step b lb st of (lb', st') \<Rightarrow> interleave xs a b (la, lb', st'))
      else (case rmw_step a la st of (la', st') \<Rightarrow> interleave xs a b (la', lb, st')))"

section \<open>Properties of the command model\<close>

lemmas op_defs = NONE_def PUT_def GET_def DELETE_def RLOCK_def RMW_def

lemma Execute_PUT:
  "Op c = PUT \<Longrightarrow> Execute c st = (V c, st\<lparr>Store := (Store st)(K c \<mapsto> V c)\<rparr>)"
  by (simp add: Execute_def)

lemma Execute_GET:
  "Op c = GET \<Longrightarrow>
   Execute c st = (case Store st (K c) of Some val \<Rightarrow> val | None \<Rightarrow> NIL, st)"
  by (simp add: Execute_def op_defs split: option.splits)

lemma Execute_RMW:
  "Op c = RMW \<Longrightarrow>
   Execute c st =
     (stored st (K c) + 1, st\<lparr>Store := (Store st)(K c \<mapsto> stored st (K c) + 1)\<rparr>)"
  by (simp add: Execute_def op_defs stored_def split: option.splits)

lemma Execute_other_key:
  "K c \<noteq> k \<Longrightarrow> Store (snd (Execute c st)) k = Store st k"
  by (simp add: Execute_def split: option.splits)

lemma map_upt_Suc_Suc:
  "map f [Suc 0..<Suc (Suc n)] = f (Suc 0) # map (\<lambda>i. f (Suc i)) [Suc 0..<Suc n]"
proof -
  have "[Suc 0..<Suc (Suc n)] = Suc 0 # map Suc [Suc 0..<Suc n]"
    by (simp only: map_Suc_upt upt_conv_Cons [of "Suc 0" "Suc (Suc n)"])
  then show ?thesis by (simp only: list.map map_map comp_def)
qed

lemma sint_of_nat_small:
  assumes "int i < 2 ^ 63"
  shows "sint (of_nat i :: 64 word) = int i"
proof -
  have "sint (word_of_int (int i) :: 64 word) = signed_take_bit 63 (int i)"
    by (simp only: sint_sbintrunc') simp
  also have "\<dots> = int i"
    using assms by (intro signed_take_bit_int_eq_self) auto
  finally show ?thesis by simp
qed

lemma rmw_results:
  "\<forall>c \<in> set cs. K c = k \<longrightarrow> Op c = RMW \<Longrightarrow>
   results_on k (fst (execute_seq cs st)) =
     map (\<lambda>i. stored st k + of_nat i) [1..<Suc (length (filter (\<lambda>c. K c = k) cs))]"
proof (induction cs arbitrary: st)
  case Nil
  show ?case by (simp add: results_on_def)
next
  case (Cons c cs)
  obtain v st' where ex: "Execute c st = (v, st')" by (cases "Execute c st")
  obtain rs st'' where rest: "execute_seq cs st' = (rs, st'')" by (cases "execute_seq cs st'")
  have ih: "results_on k rs =
      map (\<lambda>i. stored st' k + of_nat i) [1..<Suc (length (filter (\<lambda>c. K c = k) cs))]"
    using Cons.IH [of st'] Cons.prems rest by simp
  show ?case
  proof (cases "K c = k")
    case True
    then have "Op c = RMW" using Cons.prems by simp
    then have v: "v = stored st k + 1" and st': "stored st' k = stored st k + 1"
      using ex True by (auto simp: Execute_RMW stored_def)
    show ?thesis
      using True ex rest ih v st'
      by (simp add: results_on_def map_upt_Suc_Suc add.assoc del: upt_Suc)
  next
    case False
    then have "stored st' k = stored st k"
      using Execute_other_key [of c k st] ex by (simp add: stored_def)
    then show ?thesis
      using False ex rest ih by (simp add: results_on_def)
  qed
qed

text \<open>
  C1: two commands conflict exactly when they have the same key and at least one of them
  is a PUT or an RMW; the four sample cases of the specification follow.
\<close>

theorem Conflict_iff:
  "Conflict a b = (K a = K b \<and> (Op a \<in> {PUT, RMW} \<or> Op b \<in> {PUT, RMW})) \<and>
   Conflict \<lparr>Op = GET, K = k, V = v\<rparr> \<lparr>Op = GET, K = k, V = w\<rparr> = False \<and>
   Conflict \<lparr>Op = PUT, K = k, V = v\<rparr> \<lparr>Op = GET, K = k, V = w\<rparr> = True \<and>
   Conflict \<lparr>Op = PUT, K = k1, V = v\<rparr> \<lparr>Op = PUT, K = k2, V = w\<rparr> = (k1 = k2) \<and>
   Conflict \<lparr>Op = RMW, K = k, V = v\<rparr> \<lparr>Op = GET, K = k, V = w\<rparr> = True"
  by (auto simp: Conflict_def op_defs)

text \<open>
  C10: the conflict relation is symmetric.
\<close>

theorem Conflict_sym: "Conflict a b = Conflict b a"
  by (auto simp: Conflict_def)

text \<open>
  C2: what \<^const>\<open>Execute\<close> does for each of the three operations the harness uses. A PUT
  overwrites the slot and returns the value written; a GET returns the stored value, or NIL
  when the key is unset, and leaves the store alone; an RMW adds one to the stored value
  (0 when unset), stores and returns the sum. Hence, from a state where key \<open>k\<close> is unset
  and in any sequence of commands whose commands on \<open>k\<close> are all RMWs (the commands on
  other keys are arbitrary), the RMWs on \<open>k\<close> return 1, 2, ..., n in this order: as
  64-bit values always, and as signed numbers as long as n is below \<open>2^63\<close>.
\<close>

theorem Execute_semantics:
  "(Op c = PUT \<longrightarrow> Execute c st = (V c, st\<lparr>Store := (Store st)(K c \<mapsto> V c)\<rparr>)) \<and>
   (Op c = GET \<longrightarrow>
      Execute c st = (case Store st (K c) of Some val \<Rightarrow> val | None \<Rightarrow> NIL, st)) \<and>
   (Op c = RMW \<longrightarrow>
      Execute c st =
        (stored st (K c) + 1, st\<lparr>Store := (Store st)(K c \<mapsto> stored st (K c) + 1)\<rparr>)) \<and>
   (Store st k = None \<and> (\<forall>c \<in> set cs. K c = k \<longrightarrow> Op c = RMW) \<longrightarrow>
      results_on k (fst (execute_seq cs st)) =
        map of_nat [1..<Suc (length (filter (\<lambda>c. K c = k) cs))] \<and>
      (length (filter (\<lambda>c. K c = k) cs) < 2 ^ 63 \<longrightarrow>
         map sint (results_on k (fst (execute_seq cs st))) =
           map int [1..<Suc (length (filter (\<lambda>c. K c = k) cs))]))"
proof -
  have seq: "results_on k (fst (execute_seq cs st)) =
      map of_nat [1..<Suc (length (filter (\<lambda>c. K c = k) cs))]"
    if "Store st k = None" "\<forall>c \<in> set cs. K c = k \<longrightarrow> Op c = RMW"
    using rmw_results [OF that(2), of st] that(1) by (simp add: stored_def)
  have sgn: "map sint (map (of_nat :: nat \<Rightarrow> 64 word) [1..<Suc n]) = map int [1..<Suc n]"
    if "n < 2 ^ 63" for n :: nat
  proof -
    have "sint (of_nat i :: 64 word) = int i" if "i \<in> set [1..<Suc n]" for i
    proof -
      have "int i < 2 ^ 63" using that \<open>n < 2 ^ 63\<close> by auto
      then show ?thesis by (rule sint_of_nat_small)
    qed
    then show ?thesis by (simp del: upt_Suc)
  qed
  show ?thesis
    using seq sgn by (simp add: Execute_PUT Execute_GET Execute_RMW del: upt_Suc)
qed

theorem Execute_semantics_witness:
  "Execute \<lparr>Op = PUT, K = 3, V = 9\<rparr> \<lparr>Store = [3 \<mapsto> 4]\<rparr> = (9, \<lparr>Store = [3 \<mapsto> 9]\<rparr>) \<and>
   Execute \<lparr>Op = GET, K = 3, V = 0\<rparr> \<lparr>Store = [3 \<mapsto> 4]\<rparr> = (4, \<lparr>Store = [3 \<mapsto> 4]\<rparr>) \<and>
   Execute \<lparr>Op = GET, K = 5, V = 0\<rparr> \<lparr>Store = [3 \<mapsto> 4]\<rparr> = (NIL, \<lparr>Store = [3 \<mapsto> 4]\<rparr>) \<and>
   Execute \<lparr>Op = RMW, K = 3, V = 0\<rparr> \<lparr>Store = [3 \<mapsto> 4]\<rparr> = (5, \<lparr>Store = [3 \<mapsto> 5]\<rparr>) \<and>
   results_on 7 (fst (execute_seq
      [\<lparr>Op = RMW, K = 7, V = 0\<rparr>, \<lparr>Op = PUT, K = 3, V = 9\<rparr>, \<lparr>Op = RMW, K = 7, V = 0\<rparr>,
       \<lparr>Op = GET, K = 3, V = 0\<rparr>, \<lparr>Op = RMW, K = 7, V = 0\<rparr>] InitState)) = [1, 2, 3] \<and>
   map sint (results_on 7 (fst (execute_seq
      [\<lparr>Op = RMW, K = 7, V = 0\<rparr>, \<lparr>Op = PUT, K = 3, V = 9\<rparr>, \<lparr>Op = RMW, K = 7, V = 0\<rparr>,
       \<lparr>Op = GET, K = 3, V = 0\<rparr>, \<lparr>Op = RMW, K = 7, V = 0\<rparr>] InitState))) = [1, 2, 3]"
  using
    Execute_semantics [where c = "\<lparr>Op = PUT, K = 3, V = 9\<rparr>" and st = "\<lparr>Store = [3 \<mapsto> 4]\<rparr>"
      and k = 7 and cs = "[\<lparr>Op = RMW, K = 7, V = 0\<rparr>, \<lparr>Op = PUT, K = 3, V = 9\<rparr>,
        \<lparr>Op = RMW, K = 7, V = 0\<rparr>, \<lparr>Op = GET, K = 3, V = 0\<rparr>, \<lparr>Op = RMW, K = 7, V = 0\<rparr>]"]
    Execute_semantics [where c = "\<lparr>Op = GET, K = 3, V = 0\<rparr>" and st = "\<lparr>Store = [3 \<mapsto> 4]\<rparr>"
      and k = 7 and cs = "[]"]
    Execute_semantics [where c = "\<lparr>Op = GET, K = 5, V = 0\<rparr>" and st = "\<lparr>Store = [3 \<mapsto> 4]\<rparr>"
      and k = 7 and cs = "[]"]
    Execute_semantics [where c = "\<lparr>Op = RMW, K = 3, V = 0\<rparr>" and st = "\<lparr>Store = [3 \<mapsto> 4]\<rparr>"
      and k = 7 and cs = "[]"]
    Execute_semantics [where c = "\<lparr>Op = RMW, K = 7, V = 0\<rparr>" and st = InitState
      and k = 7 and cs = "[\<lparr>Op = RMW, K = 7, V = 0\<rparr>, \<lparr>Op = PUT, K = 3, V = 9\<rparr>,
        \<lparr>Op = RMW, K = 7, V = 0\<rparr>, \<lparr>Op = GET, K = 3, V = 0\<rparr>, \<lparr>Op = RMW, K = 7, V = 0\<rparr>]"]
  by (simp add: op_defs InitState_def stored_def Execute_def results_on_def NIL_def upt_rec)

section \<open>Properties of the key distribution\<close>

lemma scast_32_64_inj:
  assumes "(scast (a :: 32 word) :: 64 word) = scast b"
  shows "a = b"
proof -
  from assms have "sint (scast a :: 64 word) = sint (scast b :: 64 word)" by simp
  then have "sint a = sint b" by (simp add: sint_up_scast is_up)
  then show "a = b" by (rule signed_word_eqI)
qed

lemma cold_key_inj: "cold_key sr i = cold_key sr j \<longleftrightarrow> i = j"
  using scast_32_64_inj [of "ucast sr + 43 + i" "ucast sr + 43 + j"]
  by (auto simp: cold_key_def)

lemma cold_key_hot: "cold_key sr i = 42 \<longleftrightarrow> (ucast sr :: 32 word) + i = - 1"
proof -
  have s42: "(scast (42 :: 32 word) :: 64 word) = 42" by simp
  have "cold_key sr i = 42 \<longleftrightarrow> (ucast sr :: 32 word) + 43 + i = 42"
  proof
    assume "cold_key sr i = 42"
    then have "(scast ((ucast sr :: 32 word) + 43 + i) :: 64 word) = scast (42 :: 32 word)"
      unfolding cold_key_def s42 .
    then show "(ucast sr :: 32 word) + 43 + i = 42" by (rule scast_32_64_inj)
  next
    assume "(ucast sr :: 32 word) + 43 + i = 42"
    then show "cold_key sr i = 42" unfolding cold_key_def by (simp only: s42)
  qed
  also have "\<dots> \<longleftrightarrow> (ucast sr :: 32 word) + i + 43 = 42"
    by (simp only: ac_simps)
  also have "\<dots> \<longleftrightarrow> (ucast sr :: 32 word) + i = 42 - 43"
    by (simp only: eq_diff_eq)
  also have "(42 :: 32 word) - 43 = - 1" by simp
  finally show ?thesis .
qed

lemma nonneg_uint32:
  assumes "0 \<le> sint (a :: 32 word)"
  shows "uint a < 2 ^ 31"
proof -
  have "sint a < 2 ^ 31" using sint_lt [of a] by simp
  moreover have "uint a = take_bit 32 (sint a)" using uint_sint [of a] by simp
  moreover have "take_bit 32 (sint a) = sint a"
    using assms \<open>sint a < 2 ^ 31\<close> by (intro take_bit_int_eq_self) auto
  ultimately show ?thesis by simp
qed

lemma nonneg_sum_not_minus1:
  assumes a: "0 \<le> sint (a :: 32 word)" and i: "0 \<le> sint (i :: 32 word)"
  shows "a + i \<noteq> - 1"
proof
  assume e: "a + i = - 1"
  have "uint (a + i) = (uint a + uint i) mod 2 ^ 32" by (simp add: uint_word_ariths)
  also have "\<dots> = uint a + uint i" using nonneg_uint32 [OF a] nonneg_uint32 [OF i] by simp
  finally have "uint (a + i) < 2 ^ 32 - 1"
    using nonneg_uint32 [OF a] nonneg_uint32 [OF i] by simp
  moreover have "uint (- 1 :: 32 word) = 2 ^ 32 - 1"
    by (simp add: unsigned_minus_1_eq_mask mask_eq_exp_minus_1)
  ultimately show False using e by simp
qed

lemma ucast_minus1_64_32: "(ucast (- 1 :: 64 word) :: 32 word) = - 1"
  by (simp add: unsigned_minus_1_eq_mask mask_eq_exp_minus_1)

text \<open>
  C9, as the specification states it, fails: with the range start \<open>-1\<close> the cold key of
  the first request (id 0) is the hot key 42, and with the range start 0 so is the cold
  key of id \<open>-1\<close>, which the 32-bit counter reaches after wrapping around.
\<close>

theorem cold_key_hits_hot_key:
  "0 \<le>s conflicts \<lparr>conflicts = 20, startRange = - 1, outstandingReqs = 1, poissonAvg = - 1,
      blindWrites = False, rampDown = 15, rampUp = 15, timeout = 180\<rparr> \<and>
   \<not> 50 <s conflicts \<lparr>conflicts = 20, startRange = - 1, outstandingReqs = 1, poissonAvg = - 1,
      blindWrites = False, rampDown = 15, rampUp = 15, timeout = 180\<rparr> \<and>
   pick_key \<lparr>conflicts = 20, startRange = - 1, outstandingReqs = 1, poissonAvg = - 1,
      blindWrites = False, rampDown = 15, rampUp = 15, timeout = 180\<rparr> 50 0 0 = 42 \<and>
   pick_key \<lparr>conflicts = 20, startRange = 0, outstandingReqs = 1, poissonAvg = - 1,
      blindWrites = False, rampDown = 15, rampUp = 15, timeout = 180\<rparr> 50 0 (- 1) = 42"
  by (simp add: pick_key_def cold_key_hot ucast_minus1_64_32 word_sless_alt word_sle_eq)

text \<open>
  C9, amended: in hot-key mode the cold keys of two requests are equal only if the
  ids are equal; the cold key of id \<open>i\<close> is the hot key 42 exactly when
  \<^verbatim>\<open>int32(*startRange) + i\<close> is \<open>-1\<close> in 32-bit arithmetic, which cannot happen while
  \<^verbatim>\<open>int32(*startRange)\<close> and the id are both non-negative.
\<close>

theorem cold_keys_distinct:
  "0 \<le>s conflicts fl \<and> \<not> r <s conflicts fl \<and> \<not> r' <s conflicts fl \<longrightarrow>
     (pick_key fl r z i = pick_key fl r' z' j \<longleftrightarrow> i = j) \<and>
     (pick_key fl r z i = 42 \<longleftrightarrow> (ucast (startRange fl) :: 32 word) + i = - 1) \<and>
     (0 \<le>s (ucast (startRange fl) :: 32 word) \<and> 0 \<le>s i \<longrightarrow> pick_key fl r z i \<noteq> 42)"
  using nonneg_sum_not_minus1 [of "ucast (startRange fl)" i]
  by (auto simp: pick_key_def cold_key_inj cold_key_hot word_sle_eq)

theorem cold_keys_distinct_witness:
  "pick_key \<lparr>conflicts = 20, startRange = 1000, outstandingReqs = 1, poissonAvg = - 1,
      blindWrites = False, rampDown = 15, rampUp = 15, timeout = 180\<rparr> 50 0 7 \<noteq>
   pick_key \<lparr>conflicts = 20, startRange = 1000, outstandingReqs = 1, poissonAvg = - 1,
      blindWrites = False, rampDown = 15, rampUp = 15, timeout = 180\<rparr> 99 0 8 \<and>
   pick_key \<lparr>conflicts = 20, startRange = 1000, outstandingReqs = 1, poissonAvg = - 1,
      blindWrites = False, rampDown = 15, rampUp = 15, timeout = 180\<rparr> 50 0 7 \<noteq> 42"
  using cold_keys_distinct [where fl = "\<lparr>conflicts = 20, startRange = 1000,
      outstandingReqs = 1, poissonAvg = - 1, blindWrites = False, rampDown = 15, rampUp = 15,
      timeout = 180\<rparr>" and r = 50 and r' = 99 and z = 0 and z' = 0 and i = 7 and j = 8]
  by (simp add: word_sless_alt word_sle_eq)

section \<open>Properties of the raw-wire client\<close>

lemmas client_defs = start_def step_def writer_pick_def writer_gate_def writer_send_def
  writer_record_def replica_answer_def reader_read_def reader_error_def reader_release_def
  reader_match_def match_reply_def record_issue_def admission_def Acquire_def Release_def
  TryAcquire_def NewWeighted_def

lemma sem_inv_start: "0 \<le> sint (outstandingReqs fl) \<Longrightarrow> sem_inv fl (start fl ld)"
  by (simp add: sem_inv_def held_def unreleased_ids_def outstanding_ids_def start_def
      NewWeighted_def)

lemma sem_inv_pick: "sem_inv fl c \<Longrightarrow> writer_pick fl r w z c = Some c' \<Longrightarrow> sem_inv fl c'"
  by (auto simp: sem_inv_def held_def unreleased_ids_def outstanding_ids_def writer_pick_def split: if_splits)

lemma sem_inv_gate: "sem_inv fl c \<Longrightarrow> writer_gate fl d c = Some c' \<Longrightarrow> sem_inv fl c'"
  by (auto simp: sem_inv_def held_def unreleased_ids_def outstanding_ids_def writer_gate_def admission_def Acquire_def
      TryAcquire_def split: if_splits)

lemma sem_inv_send: "sem_inv fl c \<Longrightarrow> writer_send t c = Some c' \<Longrightarrow> sem_inv fl c'"
  by (auto simp: sem_inv_def held_def unreleased_ids_def outstanding_ids_def writer_send_def split: if_splits)

lemma sem_inv_record: "sem_inv fl c \<Longrightarrow> writer_record c = Some c' \<Longrightarrow> sem_inv fl c'"
  by (auto simp: sem_inv_def held_def unreleased_ids_def outstanding_ids_def writer_record_def record_issue_def Let_def
      split: if_splits)

lemma sem_inv_answer: "sem_inv fl c \<Longrightarrow> replica_answer n ok c = Some c' \<Longrightarrow> sem_inv fl c'"
  by (auto simp: sem_inv_def held_def unreleased_ids_def outstanding_ids_def replica_answer_def split: if_splits)

lemma sem_inv_read: "sem_inv fl c \<Longrightarrow> reader_read t c = Some c' \<Longrightarrow> sem_inv fl c'"
  by (auto simp: sem_inv_def held_def unreleased_ids_def outstanding_ids_def reader_read_def split: if_splits list.splits)

lemma sem_inv_error: "sem_inv fl c \<Longrightarrow> reader_error c = Some c' \<Longrightarrow> sem_inv fl c'"
  by (auto simp: sem_inv_def held_def unreleased_ids_def outstanding_ids_def reader_error_def split: if_splits)

lemma sem_inv_release: "sem_inv fl c \<Longrightarrow> reader_release c = Some c' \<Longrightarrow> sem_inv fl c'"
  by (auto simp: sem_inv_def held_def unreleased_ids_def outstanding_ids_def reader_release_def Release_def split: if_splits)

lemma sem_inv_match: "sem_inv fl c \<Longrightarrow> reader_match c = Some c' \<Longrightarrow> sem_inv fl c'"
  by (auto simp: sem_inv_def held_def unreleased_ids_def outstanding_ids_def reader_match_def match_reply_def split: if_splits)

lemma sem_inv_step: "sem_inv fl c \<Longrightarrow> step fl e c = Some c' \<Longrightarrow> sem_inv fl c'"
  by (cases e)
    (auto simp: step_def split: if_splits
      intro: sem_inv_pick sem_inv_gate sem_inv_send sem_inv_record sem_inv_answer
        sem_inv_read sem_inv_error sem_inv_release sem_inv_match)

lemma sem_inv_run: "sem_inv fl c \<Longrightarrow> run fl es c = Some c' \<Longrightarrow> sem_inv fl c'"
proof (induction es arbitrary: c)
  case Nil
  then show ?case by simp
next
  case (Cons e es)
  then show ?case by (auto split: option.splits dest: sem_inv_step)
qed

lemmas gryff_defs = gryff_start_def gryff_step_def gryff_pick_def gryff_gate_def
  gryff_call_def gryff_return_def gryff_record_def gryff_release_def gryff_emit_def
  admission_def Acquire_def Release_def TryAcquire_def NewWeighted_def

lemma gryff_inv_start: "gryff_inv fl (gryff_start fl ld)"
  by (simp add: gryff_inv_def gryff_start_def NewWeighted_def)

lemma gryff_inv_step:
  "gryff_inv fl g \<Longrightarrow> gryff_step fl e g = Some g' \<Longrightarrow> gryff_inv fl g'"
  by (cases e) (auto simp: gryff_inv_def gryff_defs split: if_splits)

lemma gryff_inv_run:
  "gryff_inv fl g \<Longrightarrow> gryff_run fl es g = Some g' \<Longrightarrow> gryff_inv fl g'"
proof (induction es arbitrary: g)
  case Nil
  then show ?case by simp
next
  case (Cons e es)
  then show ?case by (auto split: option.splits dest: gryff_inv_step)
qed

lemma gryff_bound:
  assumes "1 \<le> sint (outstandingReqs fl)" and "gryff_run fl es (gryff_start fl ld) = Some g"
  shows "int (gryff_outstanding g) \<le> sem_cur (sema (g_orInfo g)) \<and>
         sem_cur (sema (g_orInfo g)) \<le> sint (outstandingReqs fl) \<and> \<not> g_panicked g"
  using gryff_inv_run [OF gryff_inv_start assms(2)] assms(1)
  by (auto simp: gryff_inv_def gryff_outstanding_def split: if_splits)

text \<open>
  C3, as the specification states it, fails: the receiver releases the unit before it
  enters the locked section that matches the reply, and the issuer can flush and record
  the next request in between. With the bound 1, after the first request is answered and
  its unit released, the second request is issued while the first is still to be matched:
  two requests are issued and not matched, and the table holds two entries.
\<close>

theorem unmatched_exceed_bound:
  "sint (outstandingReqs default_flags) = 1 \<and>
   map_option (\<lambda>c. (unmatched_ids c, rloc c, ProposeReplyTS.CommandId (reply c),
        startTimes (orInfo c) 0, startTimes (orInfo c) 1, sem_cur (sema (orInfo c))))
     (run default_flags
        [Pick 50 True 0, Gate 0, Flush 1000, Record, Answer 0 1, Read 1500, Release1,
         Pick 50 True 0, Gate 0, Flush 2000, Record]
        (start default_flags 0))
     = Some ([1, 0], R_match, 0, Some 1000, Some 2000, 1)"
  by (simp add: default_flags_def client_defs unmatched_ids_def outstanding_ids_def op_defs)

text \<open>
  C3, amended: with a bound \<open>B \<ge> 1\<close>, in every state the issuer, the receiver and the
  replica can reach from the start, in any interleaving and with replies delayed and
  reordered at will, the units of the semaphore that are taken are exactly one for each
  request that is flushed and whose unit the receiver has not released (its reply not
  read, or read and not released), and one more while the issuer has acquired and not
  flushed; they never exceed \<open>B\<close>, and the receiver never releases a unit that is not
  held. The requests that are issued and not matched are those, and one more while the
  receiver is between the release and the match: they never exceed \<open>B + 1\<close>. For the
  client over the Gryff library the call that has not returned is covered by a unit, and
  the units taken never exceed \<open>B\<close>.
\<close>

theorem admission_bound:
  assumes "1 \<le> sint (outstandingReqs fl)"
    and "run fl es (start fl ld) = Some c"
    and "gryff_run fl ges (gryff_start fl gld) = Some g"
  shows "sem_cur (sema (orInfo c)) =
           int (length (unreleased_ids c)) + (if wloc c = W_send then 1 else 0) \<and>
         sem_cur (sema (orInfo c)) \<le> sint (outstandingReqs fl) \<and>
         int (length (unmatched_ids c)) =
           int (length (unreleased_ids c)) + (if rloc c = R_match then 1 else 0) \<and>
         int (length (unmatched_ids c)) \<le> sint (outstandingReqs fl) + 1 \<and>
         \<not> panicked c \<and>
         int (gryff_outstanding g) \<le> sem_cur (sema (g_orInfo g)) \<and>
         sem_cur (sema (g_orInfo g)) \<le> sint (outstandingReqs fl) \<and>
         \<not> g_panicked g"
proof -
  have inv: "sem_inv fl c" using sem_inv_run [OF sem_inv_start assms(2)] assms(1) by simp
  then have cur: "sem_cur (sema (orInfo c)) =
      int (length (unreleased_ids c)) + (if wloc c = W_send then 1 else 0)"
    and le: "sem_cur (sema (orInfo c)) \<le> sint (outstandingReqs fl)" and np: "\<not> panicked c"
    by (simp_all add: sem_inv_def held_def)
  have um: "int (length (unmatched_ids c)) =
      int (length (unreleased_ids c)) + (if rloc c = R_match then 1 else 0)"
    by (simp add: unmatched_ids_def unreleased_ids_def)
  have "int (length (unmatched_ids c)) \<le> sint (outstandingReqs fl) + 1"
    using cur le um by (simp split: if_splits)
  then show ?thesis
    using cur le um np gryff_bound [OF assms(1,3)] by simp
qed

theorem admission_bound_witness:
  "\<exists>c g. run default_flags
          [Pick 50 True 0, Gate 0, Flush 1000, Record, Answer 0 1, Read 1500, Release1,
           Pick 50 True 0, Gate 0, Flush 2000, Record]
          (start default_flags 0)
        = Some c \<and>
       unreleased_ids c = [1] \<and> unmatched_ids c = [1, 0] \<and> sem_cur (sema (orInfo c)) = 1 \<and>
       int (length (unmatched_ids c)) \<le> sint (outstandingReqs default_flags) + 1 \<and>
       run default_flags
          [Pick 50 True 0, Gate 0, Flush 1000, Record, Answer 0 1, Read 1500, Release1,
           Pick 50 True 0, Gate 0, Flush 2000, Record, Pick 50 True 0, Gate 0]
          (start default_flags 0)
        = None \<and>
       gryff_run default_flags [GPick 50 True 0, GGate 0, GCall 1000]
          (gryff_start default_flags 0)
        = Some g \<and>
       gryff_outstanding g = 1 \<and> sem_cur (sema (g_orInfo g)) = 1"
proof -
  have b: "1 \<le> sint (outstandingReqs default_flags)" by (simp add: default_flags_def)
  obtain c where r: "run default_flags
      [Pick 50 True 0, Gate 0, Flush 1000, Record, Answer 0 1, Read 1500, Release1,
       Pick 50 True 0, Gate 0, Flush 2000, Record]
      (start default_flags 0) = Some c"
    and l: "unreleased_ids c = [1]" "unmatched_ids c = [1, 0]"
      "sem_cur (sema (orInfo c)) = 1"
    by (simp add: default_flags_def client_defs unreleased_ids_def unmatched_ids_def
        outstanding_ids_def op_defs)
  have n: "run default_flags
          [Pick 50 True 0, Gate 0, Flush 1000, Record, Answer 0 1, Read 1500, Release1,
           Pick 50 True 0, Gate 0, Flush 2000, Record, Pick 50 True 0, Gate 0]
          (start default_flags 0)
        = None"
    by (simp add: default_flags_def client_defs op_defs)
  obtain g where gr: "gryff_run default_flags [GPick 50 True 0, GGate 0, GCall 1000]
      (gryff_start default_flags 0) = Some g"
    and gl: "gryff_outstanding g = 1" "sem_cur (sema (g_orInfo g)) = 1"
    by (simp add: default_flags_def gryff_defs gryff_outstanding_def)
  have bd: "int (length (unmatched_ids c)) \<le> sint (outstandingReqs default_flags) + 1"
    using admission_bound [OF b r gr] by blast
  show ?thesis using r l n gr gl bd by blast
qed

text \<open>
  C5: the issuer flushes the frame first and enters the locked section afterwards. So the
  reply can be read, its unit released and the match begun while the table has no entry
  for the id: here the first request (a GET, id 0) is answered before the issuer records
  it, and the receiver reports a read as a write with a round-trip time counted from the
  zero time.
\<close>

theorem reply_matched_before_entry_recorded:
  "map_option (\<lambda>c. (wloc c, rloc c, ProposeReplyTS.CommandId (reply c),
        startTimes (orInfo c) 0, outstandingRequestInfo.isRead (orInfo c) 0))
     (run default_flags
        [Pick 50 False 0, Gate 0, Flush 1000, Answer 0 1, Read 1500, Release1]
        (start default_flags 0))
     = Some (W_record, R_match, 0, None, None) \<and>
   map_option readings
     (run default_flags
        [Pick 50 False 0, Gate 0, Flush 1000, Answer 0 1, Read 1500, Release1, Match]
        (start default_flags 0))
     = Some [\<lparr>receivedAt = 1500, rtt = 1500, commitLatency = 0, isRead = False,
              replicaID = 0\<rparr>]"
  by (simp add: default_flags_def client_defs Sub_def)

text \<open>
  C4: one request is issued and its only reply is processed, in two schedules. In the
  first the reply is matched before the issuer has recorded the entry: the match removes
  nothing and the entry recorded afterwards stays in the table. In the second the entry
  is recorded first: the match removes the issue time, and the read flag of the id stays.
\<close>

theorem table_not_empty_after_all_replies:
  "map_option (\<lambda>c. (pending c, inbound c, wloc c, rloc c, length (readings c),
        startTimes (orInfo c) 0, outstandingRequestInfo.isRead (orInfo c) 0))
     (run default_flags
        [Pick 50 False 0, Gate 0, Flush 1000, Answer 0 1, Read 1500, Release1, Match, Record]
        (start default_flags 0))
     = Some ([], [], W_pick, R_read, 1, Some 1000, Some True) \<and>
   map_option (\<lambda>c. (pending c, inbound c, wloc c, rloc c, length (readings c),
        startTimes (orInfo c) 0, outstandingRequestInfo.isRead (orInfo c) 0))
     (run default_flags
        [Pick 50 False 0, Gate 0, Flush 1000, Record, Answer 0 1, Read 1500, Release1, Match]
        (start default_flags 0))
     = Some ([], [], W_pick, R_read, 1, None, Some True)"
  by (simp add: default_flags_def client_defs Sub_def)

text \<open>
  What does hold of the two locked sections: a match changes the table at the id of the
  reply only; and when all entries are recorded before any reply is matched, the replies
  coming in any order, the map of issue times ends empty.
\<close>

lemma match_reply_table:
  "startTimes (snd (snd (match_reply i oi))) = (startTimes oi)(i := None) \<and>
   outstandingRequestInfo.isRead (snd (snd (match_reply i oi))) = outstandingRequestInfo.isRead oi \<and>
   sema (snd (snd (match_reply i oi))) = sema oi"
  by (simp add: match_reply_def)

lemma startTimes_record_issue:
  "startTimes (record_issue i opn b oi) = (startTimes oi)(i \<mapsto> b)"
  by (simp add: record_issue_def Let_def)

lemma dom_fold_record_issue:
  "dom (startTimes (fold (\<lambda>(i, opn, b). record_issue i opn b) reqs oi)) =
     dom (startTimes oi) \<union> fst ` set reqs"
  by (induction reqs arbitrary: oi) (auto simp: startTimes_record_issue)

lemma dom_fold_match_reply:
  "dom (startTimes (fold (\<lambda>i oi. snd (snd (match_reply i oi))) rs oi)) =
     dom (startTimes oi) - set rs"
  by (induction rs arbitrary: oi) (auto simp: match_reply_def)

lemma sequential_correlation:
  assumes "startTimes oi = Map.empty" and "set rs = fst ` set reqs"
  shows "startTimes (fold (\<lambda>i oi. snd (snd (match_reply i oi))) rs
           (fold (\<lambda>(i, opn, b). record_issue i opn b) reqs oi)) = Map.empty"
proof -
  have "dom (startTimes (fold (\<lambda>i oi. snd (snd (match_reply i oi))) rs
           (fold (\<lambda>(i, opn, b). record_issue i opn b) reqs oi))) = {}"
    using assms by (simp add: dom_fold_match_reply dom_fold_record_issue)
  then show ?thesis by simp
qed

section \<open>Properties of the admission step\<close>

text \<open>
  C8, as the specification states it, fails: with the mean 0, and with the mean \<open>-5\<close>,
  the issuer takes the Poisson loop. Its first admission sleeps for the drawn
  inter-arrival time, and the second, with the only unit taken, sleeps again and counts a
  queued departure instead of blocking. With the mean \<open>-1\<close> the same steps neither sleep
  nor count, and the second admission cannot happen until a unit is released.
\<close>

theorem poisson_zero_is_open_loop:
  "sint (poissonAvg (default_flags\<lparr>poissonAvg := 0\<rparr>)) \<le> 0 \<and>
   map_option (\<lambda>c. (wloc c, slept c, queuedReqs c))
     (run (default_flags\<lparr>poissonAvg := 0\<rparr>) [Pick 50 True 0, Gate 7]
        (start (default_flags\<lparr>poissonAvg := 0\<rparr>) 0))
     = Some (W_send, [7], 0) \<and>
   map_option (\<lambda>c. (wloc c, slept c, queuedReqs c))
     (run (default_flags\<lparr>poissonAvg := 0\<rparr>)
        [Pick 50 True 0, Gate 7, Flush 1000, Record, Pick 50 True 0, Gate 9]
        (start (default_flags\<lparr>poissonAvg := 0\<rparr>) 0))
     = Some (W_gate, [7, 9], 1) \<and>
   sint (poissonAvg (default_flags\<lparr>poissonAvg := - 5\<rparr>)) \<le> 0 \<and>
   map_option (\<lambda>c. (wloc c, slept c, queuedReqs c))
     (run (default_flags\<lparr>poissonAvg := - 5\<rparr>)
        [Pick 50 True 0, Gate 7, Flush 1000, Record, Pick 50 True 0, Gate 9]
        (start (default_flags\<lparr>poissonAvg := - 5\<rparr>) 0))
     = Some (W_gate, [7, 9], 1) \<and>
   map_option (\<lambda>c. (wloc c, slept c, queuedReqs c))
     (run default_flags [Pick 50 True 0, Gate 7, Flush 1000, Record, Pick 50 True 0]
        (start default_flags 0))
     = Some (W_gate, [], 0) \<and>
   run default_flags [Pick 50 True 0, Gate 7, Flush 1000, Record, Pick 50 True 0, Gate 9]
        (start default_flags 0)
     = None"
  by (simp add: default_flags_def client_defs)

text \<open>
  C8, amended: Poisson pacing is disabled by the mean \<open>-1\<close> and by no other value. With
  \<open>-1\<close> the admission is the blocking acquire: it returns exactly when a unit is free,
  takes the unit and neither sleeps nor touches the count of queued departures. With any
  other mean, zero and the other negative values included, the admission never blocks:
  a round admits the request exactly when a unit is free, and then either sleeps for the
  drawn inter-arrival time or uses up a queued departure; a round that finds no unit free
  sleeps and counts a queued departure.
\<close>

theorem poisson_disabled_by_minus_one_only:
  "(poissonAvg fl = - 1 \<longrightarrow>
      (admission fl d s q sl \<noteq> None \<longleftrightarrow> sem_cur s < sem_size s) \<and>
      (\<forall>r. admission fl d s q sl = Some r \<longrightarrow>
         r = (True, s\<lparr>sem_cur := sem_cur s + 1\<rparr>, q, sl))) \<and>
   (poissonAvg fl \<noteq> - 1 \<longrightarrow>
      (sem_cur s < sem_size s \<longrightarrow>
         admission fl d s q sl =
           Some (True, s\<lparr>sem_cur := sem_cur s + 1\<rparr>,
                 if q = 0 then 0 else q - 1, if q = 0 then sl @ [d] else sl)) \<and>
      (\<not> sem_cur s < sem_size s \<longrightarrow>
         admission fl d s q sl = Some (False, s, q + 1, sl @ [d])))"
  by (auto simp: admission_def Acquire_def TryAcquire_def)

theorem poisson_disabled_by_minus_one_only_witness:
  "admission default_flags 7 (NewWeighted 1) 0 [] =
     Some (True, \<lparr>sem_size = 1, sem_cur = 1\<rparr>, 0, []) \<and>
   admission default_flags 7 \<lparr>sem_size = 1, sem_cur = 1\<rparr> 0 [] = None \<and>
   admission (default_flags\<lparr>poissonAvg := 0\<rparr>) 7 (NewWeighted 1) 0 [] =
     Some (True, \<lparr>sem_size = 1, sem_cur = 1\<rparr>, 0, [7]) \<and>
   admission (default_flags\<lparr>poissonAvg := 0\<rparr>) 9 \<lparr>sem_size = 1, sem_cur = 1\<rparr> 0 [7] =
     Some (False, \<lparr>sem_size = 1, sem_cur = 1\<rparr>, 1, [7, 9]) \<and>
   admission (default_flags\<lparr>poissonAvg := 0\<rparr>) 9 (NewWeighted 1) 1 [7, 9] =
     Some (True, \<lparr>sem_size = 1, sem_cur = 1\<rparr>, 0, [7, 9])"
proof -
  have m: "poissonAvg default_flags = - 1"
    and z: "poissonAvg (default_flags\<lparr>poissonAvg := 0\<rparr>) \<noteq> - 1"
    by (simp_all add: default_flags_def)
  have a1: "admission default_flags 7 (NewWeighted 1) 0 [] \<noteq> None"
    using poisson_disabled_by_minus_one_only [of default_flags 7 "NewWeighted 1" 0 "[]"] m
    by (simp add: NewWeighted_def)
  then obtain r where r: "admission default_flags 7 (NewWeighted 1) 0 [] = Some r" by auto
  then have "r = (True, \<lparr>sem_size = 1, sem_cur = 1\<rparr>, 0, [])"
    using poisson_disabled_by_minus_one_only [of default_flags 7 "NewWeighted 1" 0 "[]"] m
    by (simp add: NewWeighted_def)
  then show ?thesis
    using r
      poisson_disabled_by_minus_one_only [of default_flags 7 "\<lparr>sem_size = 1, sem_cur = 1\<rparr>" 0 "[]"]
      poisson_disabled_by_minus_one_only
        [of "default_flags\<lparr>poissonAvg := 0\<rparr>" 7 "NewWeighted 1" 0 "[]"]
      poisson_disabled_by_minus_one_only
        [of "default_flags\<lparr>poissonAvg := 0\<rparr>" 9 "\<lparr>sem_size = 1, sem_cur = 1\<rparr>" 0 "[7]"]
      poisson_disabled_by_minus_one_only
        [of "default_flags\<lparr>poissonAvg := 0\<rparr>" 9 "NewWeighted 1" 1 "[7, 9]"]
      m z
    by (cases "admission default_flags 7 \<lparr>sem_size = 1, sem_cur = 1\<rparr> 0 []")
      (simp_all add: NewWeighted_def)
qed

section \<open>Properties of concurrent RMWs\<close>

lemma rmw_step_twice:
  "Op c = RMW \<Longrightarrow>
   (case rmw_step c T_start st of (l, st') \<Rightarrow> rmw_step c l st') =
     (T_done (fst (Execute c st)), snd (Execute c st))"
  by (simp add: rmw_step_def Execute_def op_defs split: option.splits)

text \<open>
  C6, as the specification states it, fails: two RMWs on key 7 of an empty store, each
  reading before the other writes, both return 1 and leave 1 in the store; one increment
  is lost.
\<close>

theorem rmw_lost_update:
  "interleave [False, True, False, True]
     \<lparr>Op = RMW, K = 7, V = 0\<rparr> \<lparr>Op = RMW, K = 7, V = 0\<rparr> (T_start, T_start, InitState)
   = (T_done 1, T_done 1, \<lparr>Store = [7 \<mapsto> 1]\<rparr>)"
  by (simp add: rmw_step_def InitState_def)

text \<open>
  C6, amended: \<^const>\<open>Execute\<close> itself does not exclude other callers. When the callers
  take turns, each running its RMW from the read to the write before the other starts, no
  increment is lost: the two steps of a caller amount to one call of \<^const>\<open>Execute\<close>, and
  two RMWs on the same key, in either order, return the stored value plus one and plus
  two and leave it increased by two.
\<close>

theorem rmw_serialized:
  assumes "Op a = RMW" and "Op b = RMW" and "K a = k" and "K b = k"
  shows "interleave [False, False] a b (T_start, lb, st) =
           (T_done (fst (Execute a st)), lb, snd (Execute a st)) \<and>
         interleave [False, False, True, True] a b (T_start, T_start, st) =
           (T_done (stored st k + 1), T_done (stored st k + 2),
            st\<lparr>Store := (Store st)(k \<mapsto> stored st k + 2)\<rparr>) \<and>
         interleave [True, True, False, False] a b (T_start, T_start, st) =
           (T_done (stored st k + 2), T_done (stored st k + 1),
            st\<lparr>Store := (Store st)(k \<mapsto> stored st k + 2)\<rparr>) \<and>
         Execute b (snd (Execute a st)) =
           (stored st k + 2, st\<lparr>Store := (Store st)(k \<mapsto> stored st k + 2)\<rparr>)"
proof -
  have ea: "Execute a st = (stored st k + 1, st\<lparr>Store := (Store st)(k \<mapsto> stored st k + 1)\<rparr>)"
    using Execute_RMW [OF assms(1), of st] assms(3) by simp
  have eb: "Execute b st = (stored st k + 1, st\<lparr>Store := (Store st)(k \<mapsto> stored st k + 1)\<rparr>)"
    using Execute_RMW [OF assms(2), of st] assms(4) by simp
  have two: "stored st k + 1 + 1 = stored st k + 2" by simp
  have su: "stored (st\<lparr>Store := (Store st)(k \<mapsto> v)\<rparr>) k = v" for v
    by (simp add: stored_def)
  have eab': "Execute b (st\<lparr>Store := (Store st)(k \<mapsto> stored st k + 1)\<rparr>) =
      (stored st k + 2, st\<lparr>Store := (Store st)(k \<mapsto> stored st k + 2)\<rparr>)"
    using Execute_RMW [OF assms(2), of "st\<lparr>Store := (Store st)(k \<mapsto> stored st k + 1)\<rparr>"]
      assms(4)
    by (simp only: su two) simp
  have eba': "Execute a (st\<lparr>Store := (Store st)(k \<mapsto> stored st k + 1)\<rparr>) =
      (stored st k + 2, st\<lparr>Store := (Store st)(k \<mapsto> stored st k + 2)\<rparr>)"
    using Execute_RMW [OF assms(1), of "st\<lparr>Store := (Store st)(k \<mapsto> stored st k + 1)\<rparr>"]
      assms(3)
    by (simp only: su two) simp
  have eab: "Execute b (snd (Execute a st)) =
      (stored st k + 2, st\<lparr>Store := (Store st)(k \<mapsto> stored st k + 2)\<rparr>)"
    by (simp only: ea snd_conv eab')
  have eba: "Execute a (snd (Execute b st)) =
      (stored st k + 2, st\<lparr>Store := (Store st)(k \<mapsto> stored st k + 2)\<rparr>)"
    by (simp only: eb snd_conv eba')
  have sa: "interleave (False # False # xs) a b (T_start, lb, s) =
      interleave xs a b (T_done (fst (Execute a s)), lb, snd (Execute a s))" for xs lb s
    using rmw_step_twice [OF assms(1), of s] by (simp split: prod.splits)
  have sb: "interleave (True # True # xs) a b (la, T_start, s) =
      interleave xs a b (la, T_done (fst (Execute b s)), snd (Execute b s))" for xs la s
    using rmw_step_twice [OF assms(2), of s] by (simp split: prod.splits)
  have c1: "interleave [False, False] a b (T_start, lb, st) =
      (T_done (fst (Execute a st)), lb, snd (Execute a st))"
    by (simp only: sa interleave.simps(1))
  have c2: "interleave [False, False, True, True] a b (T_start, T_start, st) =
      (T_done (stored st k + 1), T_done (stored st k + 2),
       st\<lparr>Store := (Store st)(k \<mapsto> stored st k + 2)\<rparr>)"
    by (simp only: sa sb interleave.simps(1) ea eab' fst_conv snd_conv)
  have c3: "interleave [True, True, False, False] a b (T_start, T_start, st) =
      (T_done (stored st k + 2), T_done (stored st k + 1),
       st\<lparr>Store := (Store st)(k \<mapsto> stored st k + 2)\<rparr>)"
    by (simp only: sa sb interleave.simps(1) eb eba' fst_conv snd_conv)
  show ?thesis using c1 c2 c3 eab by (intro conjI)
qed

theorem rmw_serialized_witness:
  "interleave [False, False, True, True]
     \<lparr>Op = RMW, K = 7, V = 0\<rparr> \<lparr>Op = RMW, K = 7, V = 0\<rparr> (T_start, T_start, InitState)
   = (T_done 1, T_done 2, \<lparr>Store = [7 \<mapsto> 2]\<rparr>) \<and>
   Execute \<lparr>Op = RMW, K = 7, V = 0\<rparr> (snd (Execute \<lparr>Op = RMW, K = 7, V = 0\<rparr> InitState))
   = (2, \<lparr>Store = [7 \<mapsto> 2]\<rparr>)"
  using rmw_serialized [of "\<lparr>Op = RMW, K = 7, V = 0\<rparr>" "\<lparr>Op = RMW, K = 7, V = 0\<rparr>" 7
      T_start InitState]
  by (simp add: stored_def InitState_def)

section \<open>Properties of the aggregator\<close>

lemma int_div_less_iff:
  fixes a b c :: int
  assumes "0 < c"
  shows "a div c < b \<longleftrightarrow> a < b * c"
proof -
  have e: "a div c * c + a mod c = a" by simp
  have m: "0 \<le> a mod c" "a mod c < c" using assms by simp_all
  show ?thesis
  proof
    assume "a div c < b"
    then have "(a div c + 1) * c \<le> b * c" using assms by (intro mult_right_mono) auto
    then have "a div c * c + c \<le> b * c" by (simp add: algebra_simps)
    then show "a < b * c" using e m by linarith
  next
    assume lt: "a < b * c"
    show "a div c < b"
    proof (rule ccontr)
      assume "\<not> a div c < b"
      then have "b * c \<le> a div c * c" using assms by (intro mult_right_mono) auto
      then show False using lt e m by linarith
    qed
  qed
qed

lemma int_less_div_iff:
  fixes a b c :: int
  assumes "0 < c"
  shows "b < a div c \<longleftrightarrow> (b + 1) * c \<le> a"
proof -
  have "b < a div c \<longleftrightarrow> \<not> a div c < b + 1" by auto
  also have "\<dots> \<longleftrightarrow> \<not> a < (b + 1) * c" by (simp only: int_div_less_iff [OF assms])
  finally show ?thesis by auto
qed

lemma sint_seconds_of:
  assumes "0 \<le> sint d"
  shows "sint (seconds_of d) = sint d div 1000000000"
proof -
  have q: "sint d sdiv 1000000000 = sint d div 1000000000"
    using assms by (simp add: signed_divide_int_def sgn_if)
  have "sint d < 2 ^ 63" using sint_lt [of d] by simp
  then have "sint d div 1000000000 < 2 ^ 63"
    using assms by (simp add: int_div_less_iff)
  moreover have "0 \<le> sint d div 1000000000" using assms by (simp add: pos_imp_zdiv_nonneg_iff)
  ultimately have "signed_take_bit 63 (sint d div 1000000000) = sint d div 1000000000"
    by (intro signed_take_bit_int_eq_self) auto
  then show ?thesis by (simp add: seconds_of_def q sint_sbintrunc')
qed

lemma sint_diff_no_overflow:
  fixes a b :: "64 word"
  assumes "- (2 ^ 63) \<le> sint a - sint b" "sint a - sint b < 2 ^ 63"
  shows "sint (a - b) = sint a - sint b"
  using assms by (simp add: sint_word_diff signed_take_bit_int_eq_self)

lemma in_window_iff:
  assumes "0 \<le> sint d"
    and "- (2 ^ 63) \<le> sint (timeout fl) - sint (rampDown fl)"
    and "sint (timeout fl) - sint (rampDown fl) < 2 ^ 63"
  shows "in_window fl d \<longleftrightarrow>
     (sint (rampUp fl) + 1) * 1000000000 \<le> sint d \<and>
     sint d < (sint (timeout fl) - sint (rampDown fl)) * 1000000000"
  by (simp add: in_window_def word_sless_alt sint_seconds_of [OF assms(1)]
      sint_diff_no_overflow [OF assms(2,3)] int_div_less_iff int_less_div_iff)

lemma trace_loop_out:
  "\<not> in_window fl d \<Longrightarrow> trace_loop fl n d rs acc = Inr acc"
  by (induction rs arbitrary: acc) auto

lemma trace_loop_in:
  "in_window fl d \<Longrightarrow> \<forall>r \<in> set rs. 0 \<le> replicaID r \<and> replicaID r < int n \<Longrightarrow>
   trace_loop fl n d rs (ls, e) =
     Inr (ls @ map (\<lambda>r. (trace_file r, r)) rs, if rs = [] then e else receivedAt (last rs))"
  by (induction rs arbitrary: ls e) auto

lemma printer_tick_eq:
  assumes "\<forall>r \<in> set chan. 0 \<le> replicaID r \<and> replicaID r < int numLeader"
  shows "printer_tick fl numLeader now d totalOrs chan =
     Inr \<lparr>traces = (if in_window fl d then map (\<lambda>r. (trace_file r, r)) chan else []),
          summary = (if in_window fl d
                     then Some (if chan = [] then now else receivedAt (last chan),
                                length chan, totalOrs)
                     else None),
          remaining = []\<rparr>"
  using assms by (simp add: printer_tick_def trace_loop_out trace_loop_in)

text \<open>
  C7, as the specification states it, fails: with rampUp = 10, rampDown = 10 and
  timeout = 60, a tick 10.5 s after the start of the experiment lies strictly between
  10 s and 50 s, yet it writes neither the trace line of the record it takes from the
  channel nor the summary line, because the test compares the whole seconds, 10.
\<close>

theorem ramp_window_cuts_fraction:
  "sint (rampUp (default_flags\<lparr>rampUp := 10, rampDown := 10, timeout := 60\<rparr>)) * 1000000000
     < sint (10500000000 :: Duration) \<and>
   sint (10500000000 :: Duration)
     < (sint (timeout (default_flags\<lparr>rampUp := 10, rampDown := 10, timeout := 60\<rparr>)) -
        sint (rampDown (default_flags\<lparr>rampUp := 10, rampDown := 10, timeout := 60\<rparr>))) * 1000000000 \<and>
   seconds_of 10500000000 = 10 \<and>
   \<not> in_window (default_flags\<lparr>rampUp := 10, rampDown := 10, timeout := 60\<rparr>) 10500000000 \<and>
   printer_tick (default_flags\<lparr>rampUp := 10, rampDown := 10, timeout := 60\<rparr>) 3 777 10500000000 0
     [\<lparr>receivedAt = 700, rtt = 5000000, commitLatency = 0, isRead = True, replicaID = 1\<rparr>]
   = Inr \<lparr>traces = [], summary = None, remaining = []\<rparr>"
  by (simp add: default_flags_def in_window_def seconds_of_def printer_tick_def
      signed_divide_int_def word_sless_alt)

text \<open>
  C7, amended: a tick writes the trace lines of the records it takes from the channel, and
  the summary line, exactly when the whole seconds of the time since the start of the
  experiment are strictly greater than rampUp and strictly less than timeout - rampDown;
  that is, when that time is at least rampUp + 1 seconds and less than
  timeout - rampDown seconds. (The time is not negative and shorter than \<open>2^24\<close>
  seconds, timeout - rampDown does not overflow, and the records name replicas that have
  files.) Every record in the channel
  is taken, written or not. With rampUp = 10, rampDown = 10 and timeout = 60 a tick at
  5 s writes nothing, a tick at 30 s writes, a tick at 55 s writes nothing.
\<close>

theorem ramp_window:
  assumes "0 \<le> sint d" and "sint d < 16777216 * 1000000000"
    and "- (2 ^ 63) \<le> sint (timeout fl) - sint (rampDown fl)"
    and "sint (timeout fl) - sint (rampDown fl) < 2 ^ 63"
    and "\<forall>r \<in> set chan. 0 \<le> replicaID r \<and> replicaID r < int numLeader"
  shows "printer_tick fl numLeader now d totalOrs chan =
           Inr \<lparr>traces =
                  (if (sint (rampUp fl) + 1) * 1000000000 \<le> sint d \<and>
                      sint d < (sint (timeout fl) - sint (rampDown fl)) * 1000000000
                   then map (\<lambda>r. (trace_file r, r)) chan else []),
                summary =
                  (if (sint (rampUp fl) + 1) * 1000000000 \<le> sint d \<and>
                      sint d < (sint (timeout fl) - sint (rampDown fl)) * 1000000000
                   then Some (if chan = [] then now else receivedAt (last chan),
                              length chan, totalOrs)
                   else None),
                remaining = []\<rparr> \<and>
         \<not> in_window (fl\<lparr>rampUp := 10, rampDown := 10, timeout := 60\<rparr>) 5000000000 \<and>
         in_window (fl\<lparr>rampUp := 10, rampDown := 10, timeout := 60\<rparr>) 30000000000 \<and>
         \<not> in_window (fl\<lparr>rampUp := 10, rampDown := 10, timeout := 60\<rparr>) 55000000000"
proof -
  have "printer_tick fl numLeader now d totalOrs chan =
           Inr \<lparr>traces =
                  (if (sint (rampUp fl) + 1) * 1000000000 \<le> sint d \<and>
                      sint d < (sint (timeout fl) - sint (rampDown fl)) * 1000000000
                   then map (\<lambda>r. (trace_file r, r)) chan else []),
                summary =
                  (if (sint (rampUp fl) + 1) * 1000000000 \<le> sint d \<and>
                      sint d < (sint (timeout fl) - sint (rampDown fl)) * 1000000000
                   then Some (if chan = [] then now else receivedAt (last chan),
                              length chan, totalOrs)
                   else None),
                remaining = []\<rparr>"
    unfolding printer_tick_eq [OF assms(5)] in_window_iff [OF assms(1,3,4)] ..
  moreover have
    "\<not> in_window (fl\<lparr>rampUp := 10, rampDown := 10, timeout := 60\<rparr>) 5000000000"
    "in_window (fl\<lparr>rampUp := 10, rampDown := 10, timeout := 60\<rparr>) 30000000000"
    "\<not> in_window (fl\<lparr>rampUp := 10, rampDown := 10, timeout := 60\<rparr>) 55000000000"
    by (simp_all add: in_window_def seconds_of_def signed_divide_int_def word_sless_alt)
  ultimately show ?thesis by simp
qed

theorem ramp_window_witness:
  "printer_tick (default_flags\<lparr>rampUp := 10, rampDown := 10, timeout := 60\<rparr>) 3 777
       30200000000 4
     [\<lparr>receivedAt = 700, rtt = 5000000, commitLatency = 0, isRead = True, replicaID = 1\<rparr>,
      \<lparr>receivedAt = 750, rtt = 6000000, commitLatency = 0, isRead = False, replicaID = 2\<rparr>]
   = Inr \<lparr>traces =
       [(latFileRead 1,
         \<lparr>receivedAt = 700, rtt = 5000000, commitLatency = 0, isRead = True, replicaID = 1\<rparr>),
        (latFileWrite 2,
         \<lparr>receivedAt = 750, rtt = 6000000, commitLatency = 0, isRead = False, replicaID = 2\<rparr>)],
       summary = Some (750, 2, 4), remaining = []\<rparr> \<and>
   printer_tick (default_flags\<lparr>rampUp := 10, rampDown := 10, timeout := 60\<rparr>) 3 777
       5000000000 4
     [\<lparr>receivedAt = 700, rtt = 5000000, commitLatency = 0, isRead = True, replicaID = 1\<rparr>,
      \<lparr>receivedAt = 750, rtt = 6000000, commitLatency = 0, isRead = False, replicaID = 2\<rparr>]
   = Inr \<lparr>traces = [], summary = None, remaining = []\<rparr>"
  using
    ramp_window [where fl = "default_flags\<lparr>rampUp := 10, rampDown := 10, timeout := 60\<rparr>"
      and d = 30200000000 and numLeader = 3 and now = 777 and totalOrs = 4
      and chan = "[\<lparr>receivedAt = 700, rtt = 5000000, commitLatency = 0, isRead = True,
          replicaID = 1\<rparr>,
        \<lparr>receivedAt = 750, rtt = 6000000, commitLatency = 0, isRead = False, replicaID = 2\<rparr>]"]
    ramp_window [where fl = "default_flags\<lparr>rampUp := 10, rampDown := 10, timeout := 60\<rparr>"
      and d = 5000000000 and numLeader = 3 and now = 777 and totalOrs = 4
      and chan = "[\<lparr>receivedAt = 700, rtt = 5000000, commitLatency = 0, isRead = True,
          replicaID = 1\<rparr>,
        \<lparr>receivedAt = 750, rtt = 6000000, commitLatency = 0, isRead = False, replicaID = 2\<rparr>]"]
  by (simp add: default_flags_def trace_file_def)

end
